theory Spec2Isabelle
  imports Main "HOL-Library.Sublist"
begin

section \<open>Python strings\<close>

text \<open>
  A Python \<open>str\<close> is a sequence of code points. It is modelled as a \<open>string\<close>, each
  \<open>char\<close> standing for the code point of the same number, so the model covers the
  code points U+0000 to U+00FF. The character classes below are those of Python 3 on
  that range.
\<close>

abbreviation NL :: char where
  "NL \<equiv> CHR 0x0A"

definition isspace :: "char \<Rightarrow> bool" where
  \<comment> \<open>\<open>str.isspace\<close> on one character; the characters \<open>str.strip()\<close> removes.\<close>
  "isspace c =
     (let n = (of_char c :: nat)
      in (9 \<le> n \<and> n \<le> 13) \<or> (28 \<le> n \<and> n \<le> 32) \<or> n = 133 \<or> n = 160)"

definition lower_char :: "char \<Rightarrow> char" where
  \<comment> \<open>\<open>str.lower\<close> on one character: A-Z, and the capital letters U+00C0 to U+00DE
      without the multiplication sign U+00D7.\<close>
  "lower_char c =
     (let n = (of_char c :: nat)
      in if (65 \<le> n \<and> n \<le> 90) \<or> (192 \<le> n \<and> n \<le> 222 \<and> n \<noteq> 215)
         then char_of (n + 32) else c)"

definition lower :: "string \<Rightarrow> string" where
  "lower s = map lower_char s"

definition strip :: "string \<Rightarrow> string" where
  \<comment> \<open>\<open>s.strip()\<close>: whitespace removed at both ends.\<close>
  "strip s = rev (dropWhile isspace (rev (dropWhile isspace s)))"

definition lstrip_chars :: "string \<Rightarrow> string \<Rightarrow> string" where
  \<comment> \<open>\<open>s.lstrip(chars)\<close>: leading characters that occur in \<open>chars\<close> removed.\<close>
  "lstrip_chars chars s = dropWhile (\<lambda>c. c \<in> set chars) s"

fun startswith :: "string \<Rightarrow> string \<Rightarrow> bool" where
  \<comment> \<open>\<open>startswith s p\<close> is \<open>s.startswith(p)\<close>.\<close>
  "startswith s [] = True"
| "startswith [] (p # ps) = False"
| "startswith (c # cs) (p # ps) = (c = p \<and> startswith cs ps)"

fun contains :: "string \<Rightarrow> string \<Rightarrow> bool" where
  \<comment> \<open>\<open>contains s sub\<close> is \<open>sub in s\<close>.\<close>
  "contains [] sub = (sub = [])"
| "contains (c # cs) sub = (startswith (c # cs) sub \<or> contains cs sub)"

fun split :: "string \<Rightarrow> char \<Rightarrow> string list" where
  \<comment> \<open>\<open>s.split(sep)\<close> for a separator of one character: one more piece than there
      are separators, never the empty list (the first case below does not arise).\<close>
  "split [] sep = [[]]"
| "split (c # cs) sep =
     (case split cs sep of
        [] \<Rightarrow> [[c]]
      | piece # pieces \<Rightarrow>
          if c = sep then [] # piece # pieces else (c # piece) # pieces)"

definition split1 :: "string \<Rightarrow> char \<Rightarrow> string \<times> string" where
  \<comment> \<open>\<open>s.split(sep, 1)\<close> unpacked into two names; only called when \<open>sep in s\<close>.\<close>
  "split1 s sep = (takeWhile (\<lambda>c. c \<noteq> sep) s, tl (dropWhile (\<lambda>c. c \<noteq> sep) s))"

fun join :: "string \<Rightarrow> string list \<Rightarrow> string" where
  \<comment> \<open>\<open>sep.join(xs)\<close>.\<close>
  "join sep [] = []"
| "join sep [x] = x"
| "join sep (x # y # ys) = x @ sep @ join sep (y # ys)"

section \<open>Section filter\<close>

definition parse_sections :: "string option \<Rightarrow> string list" where
  "parse_sections sections_str =
     (case sections_str of
        None \<Rightarrow> []
      | Some s \<Rightarrow>
          if s = [] then []
          else map (\<lambda>s. lower (strip s)) (filter (\<lambda>s. strip s \<noteq> []) (split s (CHR '',''))))"

text \<open>
  The loop of \<open>filter_sections\<close>: its state is the flag \<open>include_current\<close> and the list
  \<open>filtered_lines\<close>, which grows at its end.
\<close>

fun filter_loop ::
  "string list \<Rightarrow> string list \<Rightarrow> bool \<Rightarrow> string list \<Rightarrow> string list \<Rightarrow> string list" where
  "filter_loop include_list exclude_list include_current filtered_lines [] = filtered_lines"
| "filter_loop include_list exclude_list include_current filtered_lines (line # lines) =
     (let include_current' =
            (if startswith line ''#'' then
               (let header_text = lower (strip (lstrip_chars ''#'' line))
                in if include_list \<noteq> [] then
                     list_ex (\<lambda>section. contains header_text section) include_list
                   else if exclude_list \<noteq> [] then
                     \<not> list_ex (\<lambda>section. contains header_text section) exclude_list
                   else True)
             else include_current);
          filtered_lines' =
            (if include_current' then filtered_lines @ [line] else filtered_lines)
      in filter_loop include_list exclude_list include_current' filtered_lines' lines)"

definition filter_sections :: "string \<Rightarrow> string option \<Rightarrow> string option \<Rightarrow> string" where
  "filter_sections content include_sections exclude_sections =
     (if content = [] then content
      else join [NL]
             (filter_loop (parse_sections include_sections) (parse_sections exclude_sections)
                True [] (split content NL)))"

section \<open>Output file name\<close>

datatype error = KeyError | ValueError | AttributeError | OSError

function replace :: "string \<Rightarrow> string \<Rightarrow> string \<Rightarrow> string" where
  \<comment> \<open>\<open>s.replace(old, new)\<close> for a non-empty \<open>old\<close>: every occurrence, left to right,
      without overlap.\<close>
  "replace [] old new = []"
| "replace (c # cs) old new =
     (if old \<noteq> [] \<and> startswith (c # cs) old
      then new @ replace (drop (length old - 1) cs) old new
      else c # replace cs old new)"
  by pat_completeness auto
termination
  by (relation "measure (\<lambda>(s, old, new). length s)") auto

definition isalnum :: "char \<Rightarrow> bool" where
  \<comment> \<open>\<open>str.isalnum\<close> on one character: letters, digits and numeric characters.\<close>
  "isalnum c =
     (let n = (of_char c :: nat)
      in (48 \<le> n \<and> n \<le> 57) \<or> (65 \<le> n \<and> n \<le> 90) \<or> (97 \<le> n \<and> n \<le> 122)
         \<or> n = 170 \<or> n = 178 \<or> n = 179 \<or> n = 181 \<or> n = 185 \<or> n = 186
         \<or> n = 188 \<or> n = 189 \<or> n = 190
         \<or> (192 \<le> n \<and> n \<le> 214) \<or> (216 \<le> n \<and> n \<le> 246) \<or> 248 \<le> n)"

definition is_word_char :: "char \<Rightarrow> bool" where
  \<comment> \<open>The class \<open>\w\<close> of \<open>re\<close> on a \<open>str\<close> pattern: alphanumeric or underscore.\<close>
  "is_word_char c = (isalnum c \<or> c = CHR ''_'')"

definition is_scheme_char :: "char \<Rightarrow> bool" where
  \<comment> \<open>\<open>scheme_chars\<close> of \<open>urllib.parse\<close>: ASCII letters, digits and \<open>+-.\<close>\<close>
  "is_scheme_char c =
     (let n = (of_char c :: nat)
      in (48 \<le> n \<and> n \<le> 57) \<or> (65 \<le> n \<and> n \<le> 90) \<or> (97 \<le> n \<and> n \<le> 122)
         \<or> c = CHR ''+'' \<or> c = CHR ''-'' \<or> c = CHR ''.'')"

definition is_ascii_alpha :: "char \<Rightarrow> bool" where
  "is_ascii_alpha c =
     (let n = (of_char c :: nat) in (65 \<le> n \<and> n \<le> 90) \<or> (97 \<le> n \<and> n \<le> 122))"

text \<open>
  \<open>urlparse(url).netloc\<close> is the standard library's, not this repository's. The model
  follows \<open>urllib.parse.urlsplit\<close> of Python 3.11 and 3.12 on what decides the network
  location. Leading characters up to U+0020 are stripped and every tab, carriage
  return and newline is removed. A scheme is cut off when the text before the first
  colon starts with an ASCII letter and consists of scheme characters. Then, when the
  rest starts with two slashes, the location runs up to the first of \<open>/\<close>, \<open>?\<close> and
  \<open>#\<close>. An unmatched square bracket in it is a \<open>ValueError\<close>. A location with both
  brackets goes through the library's check of bracketed hosts, which calls
  \<open>ipaddress\<close> and differs between the versions of the library; whether that check
  returns is the parameter \<open>bracketed_ok\<close> of the model. The last check,
  \<open>_checknetloc\<close>, raises only when the compatibility normalisation of a character of
  the location yields one of \<open>/?#@:\<close>, which no character up to U+00FF does.
\<close>

definition urlparse_netloc :: "(string \<Rightarrow> bool) \<Rightarrow> string \<Rightarrow> error + string" where
  "urlparse_netloc bracketed_ok url =
     (let url = dropWhile (\<lambda>c. (of_char c :: nat) \<le> 32) url;
          url = filter (\<lambda>c. c \<notin> set [CHR 0x09, CHR 0x0D, CHR 0x0A]) url;
          scheme_part = takeWhile (\<lambda>c. c \<noteq> CHR '':'') url;
          url' = (if contains url '':'' \<and> scheme_part \<noteq> [] \<and> is_ascii_alpha (hd scheme_part)
                     \<and> list_all is_scheme_char scheme_part
                  then drop (length scheme_part + 1) url else url)
      in if take 2 url' = ''//'' then
           (let netloc = takeWhile (\<lambda>c. c \<notin> set ''/?#'') (drop 2 url')
            in if (contains netloc ''['' \<and> \<not> contains netloc '']'')
                  \<or> (contains netloc '']'' \<and> \<not> contains netloc ''['')
               then Inl ValueError
               else if contains netloc ''['' \<and> contains netloc '']''
                       \<and> \<not> bracketed_ok netloc
               then Inl ValueError
               else Inr netloc)
         else Inr [])"

definition extensions :: "string \<rightharpoonup> string" where
  "extensions = [''markdown'' \<mapsto> ''md'', ''json'' \<mapsto> ''json'', ''xml'' \<mapsto> ''xml'']"

text \<open>
  \<open>generate_output_filename\<close> takes \<open>bracketed_ok\<close> for its call of \<open>urlparse\<close>; the
  source function has the two arguments \<open>url\<close> and \<open>format\<close>.
\<close>

definition generate_output_filename ::
  "(string \<Rightarrow> bool) \<Rightarrow> string \<Rightarrow> string \<Rightarrow> error + string" where
  "generate_output_filename bracketed_ok url format =
     (case urlparse_netloc bracketed_ok url of
        Inl e \<Rightarrow> Inl e
      | Inr netloc \<Rightarrow>
          (let domain = replace (replace netloc ''www.'' []) ''.'' ''-'';
               domain = filter (\<lambda>c. is_word_char c \<or> c = CHR ''-'') domain;
               domain = (if contains domain ''docs'' then domain else ''docs-'' @ domain)
           in case extensions format of
                None \<Rightarrow> Inl KeyError
              | Some ext \<Rightarrow> Inr (domain @ ''.'' @ ext)))"

section \<open>Cookie and header parsers\<close>

text \<open>
  A cookie is the dictionary with the keys \<open>name\<close>, \<open>value\<close>, \<open>domain\<close> and \<open>path\<close>
  that the loop of \<open>parse_cookies\<close> builds.
\<close>

record cookie =
  cookie_name :: string
  cookie_value :: string
  cookie_domain :: string
  cookie_path :: string

text \<open>
  What \<open>parse_cookies\<close> finds at a path: nothing (\<open>Path(p).exists()\<close> is false), a
  file that cannot be opened or parsed (\<open>open\<close> or \<open>json.load\<close> raises), a file whose
  content \<open>json.load\<close> returns, or a failure of the probe itself: \<open>Path(p).exists()\<close>
  passes on every \<open>OSError\<close> of \<open>stat\<close> other than a missing file, a missing directory,
  a bad descriptor and a loop of links, and the source calls it outside its \<open>try\<close>. The
  file system is a parameter of the model.
\<close>

datatype 'j cookie_file = Missing | Unreadable | Json 'j | ProbeError

datatype 'j cookies = Loaded 'j | Parsed "cookie list"

text \<open>
  A Linux file system that holds no file: \<open>stat\<close> fails with \<open>ENAMETOOLONG\<close>, which
  \<open>exists\<close> passes on, when a component of the path is longer than 255 bytes in UTF-8,
  and with \<open>ENOENT\<close>, for which \<open>exists\<close> returns false, otherwise.
\<close>

definition utf8_length :: "string \<Rightarrow> nat" where
  "utf8_length s = length s + length (filter (\<lambda>c. 128 \<le> (of_char c :: nat)) s)"

definition empty_fs :: "string \<Rightarrow> unit cookie_file" where
  "empty_fs p =
     (if list_ex (\<lambda>name. 255 < utf8_length name) (split p (CHR ''/''))
      then ProbeError else Missing)"

fun cookies_loop :: "cookie list \<Rightarrow> string list \<Rightarrow> cookie list" where
  "cookies_loop cookies [] = cookies"
| "cookies_loop cookies (cookie # rest) =
     (if contains cookie ''='' then
        (let (name, val) = split1 cookie (CHR ''='')
         in cookies_loop
              (cookies @ [\<lparr>cookie_name = strip name, cookie_value = strip val,
                           cookie_domain = [], cookie_path = ''/''\<rparr>])
              rest)
      else cookies_loop cookies rest)"

text \<open>
  The second component of a returned result holds the lines printed. The probe comes
  after the test for the empty string and before everything else, so its failure is
  the result of the call.
\<close>

definition parse_cookies ::
  "(string \<Rightarrow> 'j cookie_file) \<Rightarrow> string option
     \<Rightarrow> error + ('j cookies option \<times> string list)" where
  "parse_cookies fs cookies_str =
     (case cookies_str of
        None \<Rightarrow> Inr (None, [])
      | Some s \<Rightarrow>
          if s = [] then Inr (None, [])
          else
            (case fs s of
               ProbeError \<Rightarrow> Inl OSError
             | Json j \<Rightarrow> Inr (Some (Loaded j), [])
             | Unreadable \<Rightarrow> Inr (None, [''Warning: Could not parse cookie file '' @ s])
             | Missing \<Rightarrow>
                 (let cookies = cookies_loop [] (split s (CHR '';''))
                  in Inr (if cookies \<noteq> [] then Some (Parsed cookies) else None, []))))"

definition parse_auth_header ::
  "string option \<Rightarrow> (string \<rightharpoonup> string) option \<times> string list" where
  "parse_auth_header auth_header =
     (case auth_header of
        None \<Rightarrow> (None, [])
      | Some s \<Rightarrow>
          if s = [] then (None, [])
          else if contains s '':'' then
            (let (key, val) = split1 s (CHR '':'')
             in (Some [strip key \<mapsto> strip val], []))
          else (None, [''Warning: Invalid auth header format: '' @ s]))"

section \<open>Output formatter\<close>

text \<open>
  The values the orchestrator stores in \<open>_crawl_metadata\<close> are strings and an
  integer; an f-string formats a value with \<open>str\<close>.
\<close>

datatype pyval = PyStr string | PyInt int

fun str_of_nat :: "nat \<Rightarrow> string" where
  "str_of_nat n =
     (if n < 10 then [char_of (48 + n)]
      else str_of_nat (n div 10) @ [char_of (48 + n mod 10)])"

definition str :: "pyval \<Rightarrow> string" where
  "str v =
     (case v of
        PyStr s \<Rightarrow> s
      | PyInt i \<Rightarrow> if i < 0 then ''-'' @ str_of_nat (nat (- i)) else str_of_nat (nat i))"

text \<open>
  A crawl result as \<open>format_results\<close> reads it: the attribute \<open>markdown\<close>, and the
  attribute \<open>_crawl_metadata\<close>, which is there only once the orchestrator has set it.
\<close>

record result =
  markdown :: string
  crawl_metadata :: "(string \<rightharpoonup> pyval) option"

definition get :: "(string \<rightharpoonup> pyval) \<Rightarrow> string \<Rightarrow> pyval \<Rightarrow> pyval" where
  \<comment> \<open>\<open>d.get(key, default)\<close>\<close>
  "get d key dflt = (case d key of None \<Rightarrow> dflt | Some v \<Rightarrow> v)"

definition format_result :: "bool \<Rightarrow> result \<Rightarrow> error + string" where
  "format_result include_metadata r =
     (let output = markdown r
      in if include_metadata then
           (case crawl_metadata r of
              None \<Rightarrow> Inl AttributeError
            | Some metadata \<Rightarrow>
                (let header = ''# Documentation Crawl Report'' @ [NL, NL];
                     header = header @ ''**Source:** ''
                                @ str (get metadata ''url'' (PyStr ''Unknown'')) @ [NL];
                     header = header @ ''**Crawled:** ''
                                @ str (get metadata ''timestamp'' (PyStr ''Unknown'')) @ [NL];
                     header = header @ ''**Pages:** ''
                                @ str (get metadata ''page_count'' (PyStr ''Unknown'')) @ [NL];
                     header = header @ ''**Strategy:** ''
                                @ str (get metadata ''strategy'' (PyStr ''Unknown'')) @ [NL, NL];
                     header = header @ ''---'' @ [NL, NL]
                 in Inr (header @ output)))
         else Inr output)"

fun format_all :: "bool \<Rightarrow> result list \<Rightarrow> error + string list" where
  \<comment> \<open>The list comprehension: the first result that raises ends it.\<close>
  "format_all include_metadata [] = Inr []"
| "format_all include_metadata (r # rs) =
     (case format_result include_metadata r of
        Inl e \<Rightarrow> Inl e
      | Inr t \<Rightarrow>
          (case format_all include_metadata rs of
             Inl e \<Rightarrow> Inl e
           | Inr ts \<Rightarrow> Inr (t # ts)))"

definition format_results :: "result list \<Rightarrow> bool \<Rightarrow> error + string" where
  "format_results results include_metadata =
     (case format_all include_metadata results of
        Inl e \<Rightarrow> Inl e
      | Inr ts \<Rightarrow> Inr (join [NL] ts))"

section \<open>Sections of a document\<close>

text \<open>
  The vocabulary of the specification, for stating what the filter returns. A header is
  a line that starts with \<open>#\<close>; its text is what is left of it without the leading
  \<open>#\<close> characters and the surrounding whitespace, in lower case. A section is a header
  line with the lines that follow it up to the next header line. The lines before the
  first header line belong to no section.
\<close>

definition is_header :: "string \<Rightarrow> bool" where
  "is_header line = startswith line ''#''"

definition header_text :: "string \<Rightarrow> string" where
  "header_text line = lower (strip (lstrip_chars ''#'' line))"

definition preamble :: "string list \<Rightarrow> string list" where
  "preamble lines = takeWhile (\<lambda>l. \<not> is_header l) lines"

fun sections :: "string list \<Rightarrow> (string \<times> string list) list" where
  "sections [] = []"
| "sections (l # ls) =
     (if is_header l then (l, takeWhile (\<lambda>l. \<not> is_header l) ls) # sections ls
      else sections ls)"

definition selected_sections :: "(string \<Rightarrow> bool) \<Rightarrow> string list \<Rightarrow> string list" where
  \<comment> \<open>The lines of the sections whose header satisfies \<open>P\<close>, in order.\<close>
  "selected_sections P lines =
     concat (map (\<lambda>(h, body). h # body) (filter (\<lambda>(h, body). P h) (sections lines)))"

definition include_match :: "string list \<Rightarrow> string \<Rightarrow> bool" where
  \<comment> \<open>The header's text contains at least one of the keywords.\<close>
  "include_match keywords h = list_ex (\<lambda>k. contains (header_text h) k) keywords"

definition exclude_pass :: "string list \<Rightarrow> string \<Rightarrow> bool" where
  \<comment> \<open>The header's text contains none of the keywords.\<close>
  "exclude_pass keywords h = (\<not> list_ex (\<lambda>k. contains (header_text h) k) keywords)"

text \<open>
  The loop of \<open>filter_sections\<close> without its accumulator: \<open>header_included\<close> is the
  value the loop gives \<open>include_current\<close> at a header line, \<open>kept_lines\<close> the lines it
  appends from a given value of the flag on.
\<close>

definition header_included :: "string list \<Rightarrow> string list \<Rightarrow> string \<Rightarrow> bool" where
  "header_included include_list exclude_list line =
     (if include_list \<noteq> [] then include_match include_list line
      else if exclude_list \<noteq> [] then exclude_pass exclude_list line
      else True)"

fun kept_lines :: "string list \<Rightarrow> string list \<Rightarrow> bool \<Rightarrow> string list \<Rightarrow> string list" where
  "kept_lines inc exc b [] = []"
| "kept_lines inc exc b (line # lines) =
     (if is_header line then
        (if header_included inc exc line then line # kept_lines inc exc True lines
         else kept_lines inc exc False lines)
      else if b then line # kept_lines inc exc b lines
      else kept_lines inc exc b lines)"

section \<open>Prefixes and substrings\<close>

text \<open>
  The two executable tests are the prefix and the contiguous-sublist relations of the
  library.
\<close>

lemma startswith_iff_prefix: "startswith s p \<longleftrightarrow> prefix p s"
  by (induction s p rule: startswith.induct) auto

lemma contains_iff_sublist: "contains s sub \<longleftrightarrow> sublist sub s"
  by (induction s) (auto simp: startswith_iff_prefix sublist_Cons_right)

section \<open>Splitting and joining\<close>

lemma split_not_Nil: "split s sep \<noteq> []"
  by (induction s) (auto split: list.splits)

lemma split_no_sep: "l \<in> set (split s sep) \<Longrightarrow> sep \<notin> set l"
proof (induction s arbitrary: l)
  case Nil
  then show ?case by simp
next
  case (Cons c cs)
  obtain p ps where sp: "split cs sep = p # ps"
    using split_not_Nil [of cs sep] by (cases "split cs sep") auto
  show ?case
  proof (cases "c = sep")
    case True
    with Cons sp show ?thesis by auto
  next
    case False
    with Cons.prems sp have "l = c # p \<or> l \<in> set ps" by simp
    with Cons.IH sp False show ?thesis by auto
  qed
qed

lemma join_split: "join [sep] (split s sep) = s"
proof (induction s)
  case Nil
  show ?case by simp
next
  case (Cons c cs)
  obtain p ps where sp: "split cs sep = p # ps"
    using split_not_Nil [of cs sep] by (cases "split cs sep") auto
  show ?case
  proof (cases "c = sep")
    case True
    with Cons sp show ?thesis by simp
  next
    case False
    with Cons sp show ?thesis by (cases ps) auto
  qed
qed

lemma split_append_sep:
  "sep \<notin> set l \<Longrightarrow> split (l @ sep # s) sep = l # split s sep"
  by (induction l) (auto simp: split_not_Nil split: list.splits)

lemma split_no_sep_id: "sep \<notin> set l \<Longrightarrow> split l sep = [l]"
  by (induction l) auto

lemma split_join:
  "ls \<noteq> [] \<Longrightarrow> \<forall>l \<in> set ls. sep \<notin> set l \<Longrightarrow> split (join [sep] ls) sep = ls"
proof (induction ls)
  case Nil
  then show ?case by simp
next
  case (Cons l ls)
  show ?case
  proof (cases ls)
    case Nil
    with Cons.prems show ?thesis by (simp add: split_no_sep_id)
  next
    case (Cons y ys)
    with Cons.prems Cons.IH show ?thesis
      by (simp add: split_append_sep)
  qed
qed

section \<open>The filter loop\<close>

lemma filter_loop_kept_lines:
  "filter_loop inc exc b acc ls = acc @ kept_lines inc exc b ls"
  by (induction ls arbitrary: b acc)
     (simp_all add: is_header_def header_included_def header_text_def include_match_def
        exclude_pass_def Let_def)

lemma filter_sections_kept_lines:
  "filter_sections content inc exc =
     join [NL] (kept_lines (parse_sections inc) (parse_sections exc) True (split content NL))"
  by (simp add: filter_sections_def filter_loop_kept_lines)

lemma kept_lines_no_header:
  "\<forall>l \<in> set ls. \<not> is_header l \<Longrightarrow> kept_lines inc exc True ls = ls"
  by (induction ls) auto

lemma subseq_kept_lines: "subseq (kept_lines inc exc b ls) ls"
  by (induction ls arbitrary: b) auto

lemma set_kept_lines: "set (kept_lines inc exc b ls) \<subseteq> set ls"
  by (induction ls arbitrary: b) auto

lemma kept_lines_no_NL:
  "\<forall>l \<in> set (kept_lines inc exc b (split content NL)). NL \<notin> set l"
  using set_kept_lines [of inc exc b "split content NL"] split_no_sep [of _ content NL]
  by blast

lemma kept_lines_flag_irrelevant:
  "ls = [] \<or> is_header (hd ls) \<Longrightarrow> kept_lines inc exc b ls = kept_lines inc exc b' ls"
  by (cases ls) auto

lemma kept_lines_False_head:
  "kept_lines inc exc False ls = [] \<or> is_header (hd (kept_lines inc exc False ls))"
  by (induction ls) auto

lemma kept_lines_idem:
  "kept_lines inc exc b (kept_lines inc exc b ls) = kept_lines inc exc b ls"
proof (induction ls arbitrary: b)
  case Nil
  show ?case by simp
next
  case (Cons l ls)
  show ?case
  proof (cases "is_header l")
    case True
    show ?thesis
    proof (cases "header_included inc exc l")
      case True
      with \<open>is_header l\<close> Cons.IH [of True] show ?thesis by simp
    next
      case False
      have "kept_lines inc exc b (kept_lines inc exc False ls)
              = kept_lines inc exc False (kept_lines inc exc False ls)"
        by (rule kept_lines_flag_irrelevant) (rule kept_lines_False_head)
      with False \<open>is_header l\<close> Cons.IH [of False] show ?thesis by simp
    qed
  next
    case False
    with Cons.IH [of b] show ?thesis by (cases b) simp_all
  qed
qed

lemma kept_lines_sections:
  "kept_lines inc exc b ls =
     (if b then preamble ls else []) @ selected_sections (header_included inc exc) ls"
proof (induction ls arbitrary: b)
  case Nil
  show ?case by (simp add: preamble_def selected_sections_def)
next
  case (Cons l ls)
  show ?case
  proof (cases "is_header l")
    case True
    with Cons.IH [of True] Cons.IH [of False] show ?thesis
      by (simp add: preamble_def selected_sections_def)
  next
    case False
    with Cons.IH [of b] show ?thesis
      by (cases b) (simp_all add: preamble_def selected_sections_def)
  qed
qed

section \<open>Properties of the section filter\<close>

text \<open>
  C1, as the code has it. With a non-empty include list, on a document with at least one
  header line and whatever the exclude list, \<open>filter_sections\<close> returns the lines before
  the first header line, followed by exactly the sections whose header text contains at
  least one include keyword, joined by newlines. The lines before the first header are
  kept because \<open>include_current\<close> starts as true.
\<close>

theorem filter_sections_include:
  assumes "parse_sections include_sections \<noteq> []"
    and "list_ex is_header (split content NL)"
  shows "filter_sections content include_sections exclude_sections =
     join [NL]
       (preamble (split content NL)
        @ selected_sections (include_match (parse_sections include_sections))
            (split content NL))"
proof -
  have "header_included (parse_sections include_sections) (parse_sections exclude_sections)
      = include_match (parse_sections include_sections)"
    using assms(1) by (auto simp: header_included_def fun_eq_iff)
  then show ?thesis
    by (simp add: filter_sections_kept_lines kept_lines_sections)
qed

theorem filter_sections_include_witness:
  "parse_sections (Some ''api'') \<noteq> []
   \<and> list_ex is_header (split ''intro\<newline># API\<newline>body\<newline># Other\<newline>x'' NL)
   \<and> filter_sections ''intro\<newline># API\<newline>body\<newline># Other\<newline>x'' (Some ''api'') (Some ''api'')
       = ''intro\<newline># API\<newline>body''"
proof -
  have h1: "parse_sections (Some ''api'') \<noteq> []"
    by code_simp
  have h2: "list_ex is_header (split ''intro\<newline># API\<newline>body\<newline># Other\<newline>x'' NL)"
    by code_simp
  have r: "join [NL]
       (preamble (split ''intro\<newline># API\<newline>body\<newline># Other\<newline>x'' NL)
        @ selected_sections (include_match (parse_sections (Some ''api'')))
            (split ''intro\<newline># API\<newline>body\<newline># Other\<newline>x'' NL))
     = ''intro\<newline># API\<newline>body''"
    by code_simp
  show ?thesis
    using h1 h2 r filter_sections_include [OF h1 h2, of "Some ''api''"] by simp
qed

text \<open>
  C1 as the specification states it, without the lines before the first header, fails:
  no header of the document below matches the keyword \<open>api\<close>, so no section is
  selected, and the filter returns the line \<open>intro\<close>.
\<close>

theorem filter_sections_include_counterexample:
  "parse_sections (Some ''api'') \<noteq> []
   \<and> list_ex is_header (split ''intro\<newline># Setup\<newline>body'' NL)
   \<and> filter_sections ''intro\<newline># Setup\<newline>body'' (Some ''api'') None = ''intro''
   \<and> filter_sections ''intro\<newline># Setup\<newline>body'' (Some ''api'') None
       \<noteq> join [NL] (selected_sections (include_match (parse_sections (Some ''api'')))
                      (split ''intro\<newline># Setup\<newline>body'' NL))"
  by code_simp

text \<open>
  C2, as the code has it. With an empty include list and a non-empty exclude list,
  \<open>filter_sections\<close> returns the lines before the first header line, followed by exactly
  the sections whose header text contains none of the exclude keywords.
\<close>

theorem filter_sections_exclude:
  assumes "parse_sections include_sections = []"
    and "parse_sections exclude_sections \<noteq> []"
  shows "filter_sections content include_sections exclude_sections =
     join [NL]
       (preamble (split content NL)
        @ selected_sections (exclude_pass (parse_sections exclude_sections))
            (split content NL))"
proof -
  have "header_included (parse_sections include_sections) (parse_sections exclude_sections)
      = exclude_pass (parse_sections exclude_sections)"
    using assms by (auto simp: header_included_def fun_eq_iff)
  then show ?thesis
    by (simp add: filter_sections_kept_lines kept_lines_sections)
qed

theorem filter_sections_exclude_witness:
  "parse_sections None = []
   \<and> parse_sections (Some ''download, community'') \<noteq> []
   \<and> filter_sections ''top\<newline># Guide\<newline>a\<newline>## Download it\<newline>b\<newline># FAQ\<newline>c''
         None (Some ''download, community'')
       = ''top\<newline># Guide\<newline>a\<newline># FAQ\<newline>c''"
proof -
  have h1: "parse_sections None = []"
    by code_simp
  have h2: "parse_sections (Some ''download, community'') \<noteq> []"
    by code_simp
  have r: "join [NL]
       (preamble (split ''top\<newline># Guide\<newline>a\<newline>## Download it\<newline>b\<newline># FAQ\<newline>c'' NL)
        @ selected_sections (exclude_pass (parse_sections (Some ''download, community'')))
            (split ''top\<newline># Guide\<newline>a\<newline>## Download it\<newline>b\<newline># FAQ\<newline>c'' NL))
     = ''top\<newline># Guide\<newline>a\<newline># FAQ\<newline>c''"
    by code_simp
  show ?thesis
    using h1 h2 r
      filter_sections_exclude [OF h1 h2,
        of "''top\<newline># Guide\<newline>a\<newline>## Download it\<newline>b\<newline># FAQ\<newline>c''"]
    by simp
qed

text \<open>
  C2 as the specification states it fails in the same way: the only section of the
  document below is excluded, and the filter still returns the line before it.
\<close>

theorem filter_sections_exclude_counterexample:
  "parse_sections None = []
   \<and> parse_sections (Some ''setup'') \<noteq> []
   \<and> filter_sections ''intro\<newline># Setup\<newline>body'' None (Some ''setup'') = ''intro''
   \<and> filter_sections ''intro\<newline># Setup\<newline>body'' None (Some ''setup'')
       \<noteq> join [NL] (selected_sections (exclude_pass (parse_sections (Some ''setup'')))
                      (split ''intro\<newline># Setup\<newline>body'' NL))"
  by code_simp

text \<open>
  C3. A document none of whose lines starts with \<open>#\<close> is returned unchanged, whatever
  the include and exclude lists; the empty document gives the empty output.
\<close>

theorem filter_sections_no_headers:
  "((\<forall>l \<in> set (split content NL). \<not> startswith l ''#'')
      \<longrightarrow> filter_sections content include_sections exclude_sections = content)
   \<and> filter_sections [] include_sections exclude_sections = []"
proof
  show "(\<forall>l \<in> set (split content NL). \<not> startswith l ''#'')
     \<longrightarrow> filter_sections content include_sections exclude_sections = content"
  proof
    assume "\<forall>l \<in> set (split content NL). \<not> startswith l ''#''"
    then have "\<forall>l \<in> set (split content NL). \<not> is_header l"
      by (simp add: is_header_def)
    then show "filter_sections content include_sections exclude_sections = content"
      by (simp add: filter_sections_kept_lines kept_lines_no_header join_split)
  qed
  show "filter_sections [] include_sections exclude_sections = []"
    by (simp add: filter_sections_def)
qed

theorem filter_sections_no_headers_witness:
  "list_all (\<lambda>l. \<not> startswith l ''#'') (split ''plain text\<newline> # indented\<newline>'' NL)
   \<and> filter_sections ''plain text\<newline> # indented\<newline>'' (Some ''api'') (Some ''text'')
       = ''plain text\<newline> # indented\<newline>''"
proof -
  have h: "list_all (\<lambda>l. \<not> startswith l ''#'') (split ''plain text\<newline> # indented\<newline>'' NL)"
    by code_simp
  then have "\<forall>l \<in> set (split ''plain text\<newline> # indented\<newline>'' NL). \<not> startswith l ''#''"
    by (simp only: list_all_iff)
  then show ?thesis
    using h filter_sections_no_headers
      [of "''plain text\<newline> # indented\<newline>''" "Some ''api''" "Some ''text''"]
    by blast
qed

text \<open>
  C4. Filtering is idempotent: filtering the output again with the same include and
  exclude strings changes nothing.
\<close>

theorem filter_sections_idempotent:
  "filter_sections (filter_sections d s e) s e = filter_sections d s e"
proof -
  let ?kept = "kept_lines (parse_sections s) (parse_sections e) True (split d NL)"
  have out: "filter_sections d s e = join [NL] ?kept"
    by (rule filter_sections_kept_lines)
  show ?thesis
  proof (cases "?kept = []")
    case True
    with out have "filter_sections d s e = []" by simp
    then show ?thesis by (simp add: filter_sections_def)
  next
    case False
    have "\<forall>l \<in> set ?kept. NL \<notin> set l"
      by (rule kept_lines_no_NL)
    with False have "split (join [NL] ?kept) NL = ?kept"
      by (rule split_join)
    with out have "filter_sections (filter_sections d s e) s e
        = join [NL] (kept_lines (parse_sections s) (parse_sections e) True ?kept)"
      by (simp add: filter_sections_kept_lines)
    with out show ?thesis by (simp add: kept_lines_idem)
  qed
qed

text \<open>
  C10, as the code has it. The output of \<open>filter_sections\<close> is the join of a list of
  lines that is a subsequence of the lines of its input: every kept line is an input
  line, the kept lines are in their original order, and none is repeated or new. When
  the output is not empty, that list is the sequence of lines of the output, read back
  by splitting it at newlines.
\<close>

theorem filter_sections_subseq:
  "\<exists>filtered_lines.
     subseq filtered_lines (split content NL)
     \<and> filter_sections content include_sections exclude_sections = join [NL] filtered_lines
     \<and> (filter_sections content include_sections exclude_sections \<noteq> [] \<longrightarrow>
          split (filter_sections content include_sections exclude_sections) NL = filtered_lines)"
proof -
  let ?kept = "kept_lines (parse_sections include_sections) (parse_sections exclude_sections)
                 True (split content NL)"
  have sub: "subseq ?kept (split content NL)"
    by (rule subseq_kept_lines)
  have out: "filter_sections content include_sections exclude_sections = join [NL] ?kept"
    by (rule filter_sections_kept_lines)
  have readback: "filter_sections content include_sections exclude_sections \<noteq> [] \<longrightarrow>
      split (filter_sections content include_sections exclude_sections) NL = ?kept"
  proof
    assume "filter_sections content include_sections exclude_sections \<noteq> []"
    with out have ne: "?kept \<noteq> []"
      by auto
    have "\<forall>l \<in> set ?kept. NL \<notin> set l"
      by (rule kept_lines_no_NL)
    with ne have "split (join [NL] ?kept) NL = ?kept"
      by (rule split_join)
    with out
    show "split (filter_sections content include_sections exclude_sections) NL = ?kept"
      by simp
  qed
  from sub out readback show ?thesis
    by (intro exI conjI)
qed

theorem filter_sections_subseq_witness:
  "filter_sections ''a\<newline># x\<newline>b\<newline># y\<newline>c'' (Some ''y'') None \<noteq> []
   \<and> subseq (split (filter_sections ''a\<newline># x\<newline>b\<newline># y\<newline>c'' (Some ''y'') None) NL)
     (split ''a\<newline># x\<newline>b\<newline># y\<newline>c'' NL)"
proof -
  have ne: "filter_sections ''a\<newline># x\<newline>b\<newline># y\<newline>c'' (Some ''y'') None \<noteq> []"
    by code_simp
  obtain filtered_lines where
    s: "subseq filtered_lines (split ''a\<newline># x\<newline>b\<newline># y\<newline>c'' NL)"
    and l: "filter_sections ''a\<newline># x\<newline>b\<newline># y\<newline>c'' (Some ''y'') None \<noteq> [] \<longrightarrow>
      split (filter_sections ''a\<newline># x\<newline>b\<newline># y\<newline>c'' (Some ''y'') None) NL = filtered_lines"
    using filter_sections_subseq [of "''a\<newline># x\<newline>b\<newline># y\<newline>c''" "Some ''y''" None]
    by (elim exE conjE)
  from l ne
  have "split (filter_sections ''a\<newline># x\<newline>b\<newline># y\<newline>c'' (Some ''y'') None) NL = filtered_lines"
    by (rule mp)
  with s have "subseq (split (filter_sections ''a\<newline># x\<newline>b\<newline># y\<newline>c'' (Some ''y'') None) NL)
     (split ''a\<newline># x\<newline>b\<newline># y\<newline>c'' NL)"
    by simp
  with ne show ?thesis
    by (rule conjI)
qed

text \<open>
  C10 as the specification states it, for every document and with the lines of the
  output taken by splitting, fails where the loop keeps no line: the output is then the
  empty text, whose split is one empty line, and the document below has no empty line.
\<close>

theorem filter_sections_subseq_counterexample:
  "filter_sections ''# A'' (Some ''zzz'') None = []
   \<and> split (filter_sections ''# A'' (Some ''zzz'') None) NL = [[]]
   \<and> split ''# A'' NL = [''# A'']
   \<and> \<not> subseq (split (filter_sections ''# A'' (Some ''zzz'') None) NL) (split ''# A'' NL)"
proof -
  have out: "filter_sections ''# A'' (Some ''zzz'') None = []"
    by code_simp
  have inp: "split ''# A'' NL = [''# A'']"
    by code_simp
  have "\<not> subseq [[]] [''# A'']"
    by simp
  with out inp show ?thesis
    by simp
qed

section \<open>Helper lemmas on strings\<close>

lemma contains_single: "contains s [c] \<longleftrightarrow> c \<in> set s"
  by (induction s) auto

lemma join_Cons: "ys \<noteq> [] \<Longrightarrow> join sep (x # ys) = x @ sep @ join sep ys"
  by (cases ys) auto

lemma split1_first:
  "sep \<notin> set k \<Longrightarrow> split1 (k @ sep # v) sep = (k, v)"
  by (induction k) (auto simp: split1_def)

lemma first_occurrence:
  "c \<in> set s \<Longrightarrow> \<exists>k v. s = k @ c # v \<and> c \<notin> set k"
  using split_list_first [of c s] by blast

lemma first_occurrence_unique:
  "k @ c # v = k' @ c # v' \<Longrightarrow> c \<notin> set k \<Longrightarrow> c \<notin> set k' \<Longrightarrow> k = k' \<and> v = v'"
proof (induction k arbitrary: k')
  case Nil
  then show ?case by (cases k') auto
next
  case (Cons a k)
  then show ?case by (cases k') auto
qed

section \<open>Properties of the output file name\<close>

text \<open>
  C5, as the code has it. For \<open>https://docs.stripe.com\<close> and the format \<open>markdown\<close> the
  file name is \<open>docs-stripe-com.md\<close>: the network location is \<open>docs.stripe.com\<close>, its
  dots become hyphens, the removal of the characters outside \<open>[\w\-]\<close> keeps the
  hyphens and removes nothing here, the result contains \<open>docs\<close> so no prefix is added,
  and the extension \<open>.md\<close> is appended.
\<close>

theorem generate_output_filename_stripe:
  "urlparse_netloc bracketed_ok ''https://docs.stripe.com'' = Inr ''docs.stripe.com''
   \<and> replace (replace ''docs.stripe.com'' ''www.'' []) ''.'' ''-'' = ''docs-stripe-com''
   \<and> filter (\<lambda>c. is_word_char c \<or> c = CHR ''-'') ''docs-stripe-com'' = ''docs-stripe-com''
   \<and> contains ''docs-stripe-com'' ''docs''
   \<and> generate_output_filename bracketed_ok ''https://docs.stripe.com'' ''markdown''
       = Inr ''docs-stripe-com.md''"
  by code_simp

text \<open>
  C5 as the specification states it, with the result \<open>docsstripe-com.md\<close>, fails: the
  hyphen that replaces the first dot is not removed. (The location has no bracket, so
  the parameter is not consulted; \<open>top\<close> accepts every bracketed location.)
\<close>

theorem generate_output_filename_stripe_counterexample:
  "generate_output_filename top ''https://docs.stripe.com'' ''markdown''
     \<noteq> Inr ''docsstripe-com.md''"
  by code_simp

section \<open>Properties of the output formatter\<close>

lemma format_all_map:
  "map (format_result md) rs = map Inr ts \<Longrightarrow> format_all md rs = Inr ts"
proof (induction rs arbitrary: ts)
  case Nil
  then show ?case by simp
next
  case (Cons r rs)
  then obtain t ts' where ts: "ts = t # ts'"
    by (cases ts) auto
  with Cons.prems have "format_result md r = Inr t" "map (format_result md) rs = map Inr ts'"
    by simp_all
  with Cons.IH [of ts'] ts show ?case
    by simp
qed

lemma join_newline_concat:
  "join [NL] (t # ts) = t @ concat (map (\<lambda>u. NL # u) ts)"
  by (induction ts arbitrary: t) (simp_all add: join_Cons)

text \<open>
  C6, as the code has it. When the texts of two or more results are \<open>t1\<close>, \<open>t2\<close> and
  \<open>ts\<close>, in this order, the document is \<open>t1\<close>, one newline character, \<open>t2\<close>, and then
  each text of \<open>ts\<close> after one newline character: consecutive texts are separated by
  a single \<open>\n\<close> and nothing else is put between, before or after them.
\<close>

theorem format_results_newline:
  assumes "map (format_result include_metadata) results = map Inr (t1 # t2 # ts)"
  shows "format_results results include_metadata =
     Inr (t1 @ [NL] @ t2 @ concat (map (\<lambda>u. NL # u) ts))"
proof -
  from assms have "format_all include_metadata results = Inr (t1 # t2 # ts)"
    by (rule format_all_map)
  then show ?thesis
    by (simp add: format_results_def join_newline_concat)
qed

theorem format_results_newline_witness:
  "format_results
     [\<lparr>markdown = ''first'', crawl_metadata = None\<rparr>,
      \<lparr>markdown = ''second'', crawl_metadata = None\<rparr>,
      \<lparr>markdown = ''third'', crawl_metadata = None\<rparr>] False
   = Inr ''first\<newline>second\<newline>third''"
proof -
  have h: "map (format_result False)
      [\<lparr>markdown = ''first'', crawl_metadata = None\<rparr>,
       \<lparr>markdown = ''second'', crawl_metadata = None\<rparr>,
       \<lparr>markdown = ''third'', crawl_metadata = None\<rparr>]
     = map Inr [''first'', ''second'', ''third'']"
    by (simp add: format_result_def)
  show ?thesis
    using format_results_newline [OF h] by simp
qed

text \<open>
  C6 as the specification states it, with a blank line between consecutive results,
  fails: the document of the two results \<open>a\<close> and \<open>b\<close> without metadata has the two lines
  \<open>a\<close> and \<open>b\<close> and no empty line.
\<close>

theorem format_results_blank_line_counterexample:
  "format_results
     [\<lparr>markdown = ''a'', crawl_metadata = None\<rparr>,
      \<lparr>markdown = ''b'', crawl_metadata = None\<rparr>] False
   = Inr ''a\<newline>b''
   \<and> format_results
     [\<lparr>markdown = ''a'', crawl_metadata = None\<rparr>,
      \<lparr>markdown = ''b'', crawl_metadata = None\<rparr>] False
   \<noteq> Inr ''a\<newline>\<newline>b''
   \<and> split ''a\<newline>b'' NL = [''a'', ''b'']"
  by (simp add: format_results_def format_result_def)

text \<open>
  C7. With the metadata flag set, the document of two results that carry metadata is
  the header block of the first (title, source URL, crawl timestamp, page count and
  strategy, then the separator line \<open>---\<close>), the markdown of the first, a newline, the
  header block of the second and the markdown of the second, in this order.
\<close>

theorem format_results_two_metadata:
  assumes "crawl_metadata r1 = Some m1" and "crawl_metadata r2 = Some m2"
    and "m1 ''url'' = Some url1" and "m1 ''timestamp'' = Some timestamp1"
    and "m1 ''page_count'' = Some page_count1" and "m1 ''strategy'' = Some strategy1"
    and "m2 ''url'' = Some url2" and "m2 ''timestamp'' = Some timestamp2"
    and "m2 ''page_count'' = Some page_count2" and "m2 ''strategy'' = Some strategy2"
  shows "format_results [r1, r2] True =
     Inr (''# Documentation Crawl Report\<newline>\<newline>''
          @ ''**Source:** '' @ str url1 @ ''\<newline>''
          @ ''**Crawled:** '' @ str timestamp1 @ ''\<newline>''
          @ ''**Pages:** '' @ str page_count1 @ ''\<newline>''
          @ ''**Strategy:** '' @ str strategy1 @ ''\<newline>\<newline>''
          @ ''---\<newline>\<newline>''
          @ markdown r1
          @ ''\<newline>''
          @ ''# Documentation Crawl Report\<newline>\<newline>''
          @ ''**Source:** '' @ str url2 @ ''\<newline>''
          @ ''**Crawled:** '' @ str timestamp2 @ ''\<newline>''
          @ ''**Pages:** '' @ str page_count2 @ ''\<newline>''
          @ ''**Strategy:** '' @ str strategy2 @ ''\<newline>\<newline>''
          @ ''---\<newline>\<newline>''
          @ markdown r2)"
  using assms by (simp add: format_results_def format_result_def get_def)

theorem format_results_two_metadata_witness:
  "format_results
     [\<lparr>markdown = ''# Intro'',
       crawl_metadata = Some [''url'' \<mapsto> PyStr ''https://a.io'', ''timestamp'' \<mapsto> PyStr ''2024-05-01 10:00:00'',
                              ''page_count'' \<mapsto> PyInt 1, ''strategy'' \<mapsto> PyStr ''single-page'']\<rparr>,
      \<lparr>markdown = ''# Next'',
       crawl_metadata = Some [''url'' \<mapsto> PyStr ''https://a.io'', ''timestamp'' \<mapsto> PyStr ''2024-05-01 10:00:02'',
                              ''page_count'' \<mapsto> PyInt 1, ''strategy'' \<mapsto> PyStr ''single-page'']\<rparr>]
     True
   = Inr (''# Documentation Crawl Report\<newline>\<newline>**Source:** https://a.io\<newline>''
          @ ''**Crawled:** 2024-05-01 10:00:00\<newline>**Pages:** 1\<newline>''
          @ ''**Strategy:** single-page\<newline>\<newline>---\<newline>\<newline># Intro\<newline>''
          @ ''# Documentation Crawl Report\<newline>\<newline>**Source:** https://a.io\<newline>''
          @ ''**Crawled:** 2024-05-01 10:00:02\<newline>**Pages:** 1\<newline>''
          @ ''**Strategy:** single-page\<newline>\<newline>---\<newline>\<newline># Next'')"
proof -
  have one: "str (PyInt 1) = ''1''"
    by code_simp
  have s: "\<And>x. str (PyStr x) = x"
    by (simp add: str_def)
  show ?thesis
    using format_results_two_metadata
      [of "\<lparr>markdown = ''# Intro'',
       crawl_metadata = Some [''url'' \<mapsto> PyStr ''https://a.io'', ''timestamp'' \<mapsto> PyStr ''2024-05-01 10:00:00'',
                              ''page_count'' \<mapsto> PyInt 1, ''strategy'' \<mapsto> PyStr ''single-page'']\<rparr>"
          "[''url'' \<mapsto> PyStr ''https://a.io'', ''timestamp'' \<mapsto> PyStr ''2024-05-01 10:00:00'',
                              ''page_count'' \<mapsto> PyInt 1, ''strategy'' \<mapsto> PyStr ''single-page'']"
          "\<lparr>markdown = ''# Next'',
       crawl_metadata = Some [''url'' \<mapsto> PyStr ''https://a.io'', ''timestamp'' \<mapsto> PyStr ''2024-05-01 10:00:02'',
                              ''page_count'' \<mapsto> PyInt 1, ''strategy'' \<mapsto> PyStr ''single-page'']\<rparr>"
          "[''url'' \<mapsto> PyStr ''https://a.io'', ''timestamp'' \<mapsto> PyStr ''2024-05-01 10:00:02'',
                              ''page_count'' \<mapsto> PyInt 1, ''strategy'' \<mapsto> PyStr ''single-page'']"
          "PyStr ''https://a.io''" "PyStr ''2024-05-01 10:00:00''" "PyInt 1" "PyStr ''single-page''"
          "PyStr ''https://a.io''" "PyStr ''2024-05-01 10:00:02''" "PyInt 1" "PyStr ''single-page''"]
    by (simp add: one s)
qed

section \<open>Properties of the cookie and header parsers\<close>

lemma cookies_loop_map:
  "cookies_loop acc segs =
     acc @ map (\<lambda>seg. \<lparr>cookie_name = strip (takeWhile (\<lambda>c. c \<noteq> CHR ''='') seg),
                        cookie_value = strip (tl (dropWhile (\<lambda>c. c \<noteq> CHR ''='') seg)),
                        cookie_domain = [], cookie_path = ''/''\<rparr>)
             (filter (\<lambda>seg. CHR ''='' \<in> set seg) segs)"
  by (induction segs arbitrary: acc) (simp_all add: contains_single split1_def)

text \<open>
  Where the probe returns false, \<open>parse_cookies\<close> does what is expected of it on an
  inline cookie string: it splits at \<open>;\<close>, skips the segments without \<open>=\<close> and prints
  nothing, builds for each other segment the record of the trimmed text before the
  first \<open>=\<close> and the trimmed text after it, with the empty domain and the path \<open>/\<close>, and
  returns \<open>None\<close> without any such segment. The empty input and the absent input give
  \<open>None\<close> before any probe.
\<close>

lemma parse_cookies_probe_false:
  assumes "fs s = Missing"
  shows "parse_cookies fs (Some s) =
     Inr (let cookies =
                map (\<lambda>seg. \<lparr>cookie_name = strip (takeWhile (\<lambda>c. c \<noteq> CHR ''='') seg),
                              cookie_value = strip (tl (dropWhile (\<lambda>c. c \<noteq> CHR ''='') seg)),
                              cookie_domain = [], cookie_path = ''/''\<rparr>)
                  (filter (\<lambda>seg. CHR ''='' \<in> set seg) (split s (CHR '';'')))
          in (if cookies = [] then None else Some (Parsed cookies), []))"
  using assms by (cases "s = []") (simp_all add: parse_cookies_def cookies_loop_map Let_def)

lemma parse_cookies_empty:
  "parse_cookies fs (Some []) = Inr (None, [])" "parse_cookies fs None = Inr (None, [])"
  by (simp_all add: parse_cookies_def)

lemma parse_cookies_probe_error:
  "s \<noteq> [] \<Longrightarrow> fs s = ProbeError \<Longrightarrow> parse_cookies fs (Some s) = Inl OSError"
  by (simp add: parse_cookies_def)

lemma empty_fs_long_name: "empty_fs (''a='' @ replicate 254 (CHR ''x'')) = ProbeError"
proof -
  have "CHR ''/'' \<notin> set (''a='' @ replicate 254 (CHR ''x''))"
    by simp
  then have "split (''a='' @ replicate 254 (CHR ''x'')) (CHR ''/'')
      = [''a='' @ replicate 254 (CHR ''x'')]"
    by (rule split_no_sep_id)
  moreover have "utf8_length (''a='' @ replicate 254 (CHR ''x'')) = 256"
    by (simp add: utf8_length_def)
  ultimately show ?thesis
    by (simp add: empty_fs_def)
qed

text \<open>
  C8. On a file system without files the two examples of the claim come out as it
  says: \<open>a=1; b=2\<close> gives the two records and \<open>novalue;alsobad\<close> gives \<open>None\<close>. But an
  inline cookie string of 256 characters, \<open>a=\<close> followed by 254 times \<open>x\<close>, is not
  parsed: the probe for a file of that name fails with \<open>ENAMETOOLONG\<close>, outside the
  \<open>try\<close>, and the call raises \<open>OSError\<close>.
\<close>

theorem parse_cookies_long_inline_raises:
  "parse_cookies empty_fs (Some ''a=1; b=2'') =
     Inr (Some (Parsed
            [\<lparr>cookie_name = ''a'', cookie_value = ''1'', cookie_domain = [], cookie_path = ''/''\<rparr>,
             \<lparr>cookie_name = ''b'', cookie_value = ''2'', cookie_domain = [], cookie_path = ''/''\<rparr>]),
          [])
   \<and> parse_cookies empty_fs (Some ''novalue;alsobad'') = Inr (None, [])
   \<and> parse_cookies empty_fs (Some (''a='' @ replicate 254 (CHR ''x''))) = Inl OSError"
proof (intro conjI)
  show "parse_cookies empty_fs (Some ''a=1; b=2'') =
     Inr (Some (Parsed
            [\<lparr>cookie_name = ''a'', cookie_value = ''1'', cookie_domain = [], cookie_path = ''/''\<rparr>,
             \<lparr>cookie_name = ''b'', cookie_value = ''2'', cookie_domain = [], cookie_path = ''/''\<rparr>]),
          [])"
    by code_simp
  show "parse_cookies empty_fs (Some ''novalue;alsobad'') = Inr (None, [])"
    by code_simp
  have "''a='' @ replicate 254 (CHR ''x'') \<noteq> []"
    by simp
  then show "parse_cookies empty_fs (Some (''a='' @ replicate 254 (CHR ''x''))) = Inl OSError"
    using empty_fs_long_name by (rule parse_cookies_probe_error)
qed

text \<open>
  C9. For a string with a colon, \<open>parse_auth_header\<close> returns the mapping with the one
  entry from the trimmed text before the first colon to the trimmed text after it, and
  prints nothing. For a non-empty string without a colon it returns \<open>None\<close> and prints
  a warning. The function has no error result: it raises on no string.
\<close>

theorem parse_auth_header_contract:
  "(CHR '':'' \<in> set s \<longrightarrow>
      (\<exists>k v. s = k @ CHR '':'' # v \<and> CHR '':'' \<notin> set k
         \<and> parse_auth_header (Some s) = (Some [strip k \<mapsto> strip v], [])))
   \<and> (s \<noteq> [] \<and> CHR '':'' \<notin> set s \<longrightarrow>
        parse_auth_header (Some s) = (None, [''Warning: Invalid auth header format: '' @ s]))
   \<and> parse_auth_header (Some ''Authorization: Bearer xyz'')
        = (Some [''Authorization'' \<mapsto> ''Bearer xyz''], [])
   \<and> parse_auth_header (Some ''malformed'')
        = (None, [''Warning: Invalid auth header format: malformed''])"
proof (intro conjI impI)
  assume c: "CHR '':'' \<in> set s"
  from first_occurrence [OF c] obtain k v
    where kv: "s = k @ CHR '':'' # v" "CHR '':'' \<notin> set k"
    by auto
  then have "split1 s (CHR '':'') = (k, v)"
    by (simp add: split1_first)
  with c kv have r: "parse_auth_header (Some s) = (Some [strip k \<mapsto> strip v], [])"
    by (simp add: parse_auth_header_def contains_single)
  show "\<exists>k v. s = k @ CHR '':'' # v \<and> CHR '':'' \<notin> set k
         \<and> parse_auth_header (Some s) = (Some [strip k \<mapsto> strip v], [])"
  proof (intro exI conjI)
    show "s = k @ CHR '':'' # v" by (rule kv(1))
    show "CHR '':'' \<notin> set k" by (rule kv(2))
    show "parse_auth_header (Some s) = (Some [strip k \<mapsto> strip v], [])" by (rule r)
  qed
next
  assume "s \<noteq> [] \<and> CHR '':'' \<notin> set s"
  then show "parse_auth_header (Some s) = (None, [''Warning: Invalid auth header format: '' @ s])"
    by (simp add: parse_auth_header_def contains_single)
next
  show "parse_auth_header (Some ''Authorization: Bearer xyz'')
        = (Some [''Authorization'' \<mapsto> ''Bearer xyz''], [])"
    by (simp add: parse_auth_header_def split1_def strip_def isspace_def)
next
  show "parse_auth_header (Some ''malformed'')
        = (None, [''Warning: Invalid auth header format: malformed''])"
    by (simp add: parse_auth_header_def)
qed

theorem parse_auth_header_contract_witness:
  "parse_auth_header (Some '' X-Api-Key :  k:1 '') = (Some [''X-Api-Key'' \<mapsto> ''k:1''], [])
   \<and> parse_auth_header (Some ''Bearer token'')
        = (None, [''Warning: Invalid auth header format: Bearer token''])"
proof -
  have c: "CHR '':'' \<in> set '' X-Api-Key :  k:1 ''"
    by simp
  have "\<exists>k v. '' X-Api-Key :  k:1 '' = k @ CHR '':'' # v \<and> CHR '':'' \<notin> set k
         \<and> parse_auth_header (Some '' X-Api-Key :  k:1 '') = (Some [strip k \<mapsto> strip v], [])"
    by (rule mp [OF conjunct1 [OF parse_auth_header_contract] c])
  then obtain k v where kv: "'' X-Api-Key :  k:1 '' = k @ CHR '':'' # v"
    and nk: "CHR '':'' \<notin> set k"
    and r: "parse_auth_header (Some '' X-Api-Key :  k:1 '') = (Some [strip k \<mapsto> strip v], [])"
    by (elim exE conjE)
  have "'' X-Api-Key '' @ CHR '':'' # ''  k:1 '' = k @ CHR '':'' # v"
    using kv by simp
  moreover have "CHR '':'' \<notin> set '' X-Api-Key ''"
    by simp
  ultimately have "'' X-Api-Key '' = k \<and> ''  k:1 '' = v"
    using nk by (rule first_occurrence_unique)
  moreover have "strip '' X-Api-Key '' = ''X-Api-Key''" "strip ''  k:1 '' = ''k:1''"
    by (simp_all add: strip_def isspace_def)
  ultimately have first: "parse_auth_header (Some '' X-Api-Key :  k:1 '')
      = (Some [''X-Api-Key'' \<mapsto> ''k:1''], [])"
    using r by auto
  have n: "''Bearer token'' \<noteq> [] \<and> CHR '':'' \<notin> set ''Bearer token''"
    by simp
  have second: "parse_auth_header (Some ''Bearer token'')
        = (None, [''Warning: Invalid auth header format: Bearer token''])"
    using mp [OF conjunct1 [OF conjunct2 [OF parse_auth_header_contract]] n] by simp
  from first second show ?thesis by (rule conjI)
qed

end
